theory Spec2Isabelle
  imports Complex_Main "HOL-Library.Word" "HOL-Library.Multiset"
begin

section \<open>The match table\<close>

text \<open>
  A row of the match table as \<open>app.py\<close> holds it after \<open>read_csv\<close>: the date as a
  timestamp, the team and venue names as strings, and the two runs columns as signed
  64-bit integers (the \<open>int64\<close> dtype pandas gives an integer column), so that the
  subtraction of line 62 wraps as the column arithmetic does.
\<close>

type_synonym int64 = "64 word"

record match_row =
  match_id :: int
  date :: int
  team1 :: string
  team2 :: string
  venue :: string
  runs_team1 :: int64
  runs_team2 :: int64

text \<open>
  Line 61:
  \<^verbatim>\<open>df["winner"] = df.apply(lambda r: r["team1"] if r["runs_team1"] > r["runs_team2"] else r["team2"], axis=1)\<close>
\<close>

definition winner :: "match_row \<Rightarrow> string" where
  "winner r = (if sint (runs_team1 r) > sint (runs_team2 r) then team1 r else team2 r)"

text \<open>
  Line 62: \<^verbatim>\<open>df["margin"] = (df["runs_team1"] - df["runs_team2"]).abs()\<close>.
  Both the subtraction and the absolute value are \<open>int64\<close> operations.
\<close>

definition abs_int64 :: "int64 \<Rightarrow> int64" where
  "abs_int64 x = (if sint x < 0 then - x else x)"

definition margin :: "match_row \<Rightarrow> int64" where
  "margin r = abs_int64 (runs_team1 r - runs_team2 r)"

text \<open>A match won by the side batting first, and a tied match.\<close>

definition chennai_opener :: match_row where
  "chennai_opener = \<lparr>match_id = 1, date = 20240322, team1 = ''CSK'', team2 = ''RCB'',
                      venue = ''Chennai'', runs_team1 = 176, runs_team2 = 173\<rparr>"

definition mumbai_tie :: match_row where
  "mumbai_tie = \<lparr>match_id = 7, date = 20240410, team1 = ''MI'', team2 = ''KKR'',
                  venue = ''Mumbai'', runs_team1 = 165, runs_team2 = 165\<rparr>"

section \<open>The uploaded frame and its validation\<close>

text \<open>
  The frame \<open>df\<close> as it stands after line 52: \<open>read_csv\<close> (line 51) has read the
  file, and the column names are stripped and lower-cased. It is a list of named
  columns of equal length. A column of integers has the dtype \<open>int64\<close>; a column with
  any entry that is not a number is kept as text. Columns of floating-point numbers are
  not modelled.
\<close>

datatype cell = Int64 int64 | Str string

type_synonym column = "cell list"

type_synonym frame = "(string \<times> column) list"

text \<open>
  \<open>MissingColumns\<close> is the stop of lines 57-58 (\<open>st.error\<close> with the missing columns,
  then \<open>st.stop()\<close>); \<open>KeyError\<close> and \<open>TypeError\<close> are the Python exceptions.
\<close>

datatype error = MissingColumns "string set" | KeyError string | TypeError

definition and_then :: "error + 'a \<Rightarrow> ('a \<Rightarrow> error + 'b) \<Rightarrow> error + 'b" where
  "and_then r f = (case r of Inl e \<Rightarrow> Inl e | Inr v \<Rightarrow> f v)"

fun sequence :: "(error + 'a) list \<Rightarrow> error + 'a list" where
  "sequence [] = Inr []"
| "sequence (r # rs) = and_then r (\<lambda>v. and_then (sequence rs) (\<lambda>vs. Inr (v # vs)))"

text \<open>
  Lines 55-58:
  \<^verbatim>\<open>
  required_cols = ["match_id", "date", "team1", "team2", "venue", "runs_team1", "runs_team2"]
  if not set(required_cols).issubset(df.columns):
      st.error(f"Missing columns: {set(required_cols) - set(df.columns)}")
      st.stop()
  \<close>
\<close>

definition required_cols :: "string list" where
  "required_cols =
     [''match_id'', ''date'', ''team1'', ''team2'', ''venue'', ''runs_team1'', ''runs_team2'']"

definition validate :: "frame \<Rightarrow> error + unit" where
  "validate df =
     (if \<not> set required_cols \<subseteq> set (map fst df)
      then Inl (MissingColumns (set required_cols - set (map fst df)))
      else Inr ())"

text \<open>\<open>df[name]\<close> and \<open>df[name] = c\<close>; the latter replaces the column or appends it.\<close>

definition getitem :: "frame \<Rightarrow> string \<Rightarrow> error + column" where
  "getitem df name = (case map_of df name of None \<Rightarrow> Inl (KeyError name) | Some c \<Rightarrow> Inr c)"

fun setitem :: "frame \<Rightarrow> string \<Rightarrow> column \<Rightarrow> frame" where
  "setitem [] name c = [(name, c)]"
| "setitem ((k, v) # df) name c = (if k = name then (k, c) # df else (k, v) # setitem df name c)"

text \<open>
  The operators of lines 61-62 on cells. Python orders two strings by code point and
  two numbers by value, and raises \<open>TypeError\<close> when asked to order a number and a
  string, or to subtract where a string is involved.
\<close>

fun str_less :: "string \<Rightarrow> string \<Rightarrow> bool" where
  "str_less [] [] = False"
| "str_less [] (y # ys) = True"
| "str_less (x # xs) [] = False"
| "str_less (x # xs) (y # ys) =
     ((of_char x :: nat) < of_char y \<or> (x = y \<and> str_less xs ys))"

fun py_gt :: "cell \<Rightarrow> cell \<Rightarrow> error + bool" where
  "py_gt (Int64 a) (Int64 b) = Inr (sint a > sint b)"
| "py_gt (Str a) (Str b) = Inr (str_less b a)"
| "py_gt _ _ = Inl TypeError"

fun py_sub :: "cell \<Rightarrow> cell \<Rightarrow> error + cell" where
  "py_sub (Int64 a) (Int64 b) = Inr (Int64 (a - b))"
| "py_sub _ _ = Inl TypeError"

fun py_abs :: "cell \<Rightarrow> error + cell" where
  "py_abs (Int64 a) = Inr (Int64 (abs_int64 a))"
| "py_abs (Str a) = Inl TypeError"

text \<open>
  Lines 61-62 on the frame: the winner row by row, then the margin as a difference of
  two columns; then the whole of lines 55-62.
\<close>

definition add_winner :: "frame \<Rightarrow> error + frame" where
  "add_winner df =
     and_then (getitem df ''team1'') (\<lambda>c_team1.
     and_then (getitem df ''team2'') (\<lambda>c_team2.
     and_then (getitem df ''runs_team1'') (\<lambda>c_runs1.
     and_then (getitem df ''runs_team2'') (\<lambda>c_runs2.
     and_then (sequence (map (\<lambda>(t1, t2, r1, r2).
                              and_then (py_gt r1 r2) (\<lambda>g. Inr (if g then t1 else t2)))
                         (zip c_team1 (zip c_team2 (zip c_runs1 c_runs2)))))
       (\<lambda>w. Inr (setitem df ''winner'' w))))))"

definition add_margin :: "frame \<Rightarrow> error + frame" where
  "add_margin df =
     and_then (getitem df ''runs_team1'') (\<lambda>c_runs1.
     and_then (getitem df ''runs_team2'') (\<lambda>c_runs2.
     and_then (sequence (map (\<lambda>(r1, r2). and_then (py_sub r1 r2) py_abs)
                             (zip c_runs1 c_runs2)))
       (\<lambda>m. Inr (setitem df ''margin'' m))))"

definition preprocess :: "frame \<Rightarrow> error + frame" where
  "preprocess df = and_then (validate df) (\<lambda>_. and_then (add_winner df) add_margin)"

text \<open>The runs columns are numeric; and the frame that holds a typed match table.\<close>

fun is_numeric :: "cell \<Rightarrow> bool" where
  "is_numeric (Int64 a) = True"
| "is_numeric (Str a) = False"

definition numeric_runs :: "frame \<Rightarrow> bool" where
  "numeric_runs df =
     (case (map_of df ''runs_team1'', map_of df ''runs_team2'') of
        (Some c1, Some c2) \<Rightarrow> list_all is_numeric c1 \<and> list_all is_numeric c2
      | _ \<Rightarrow> False)"

definition to_frame :: "match_row list \<Rightarrow> frame" where
  "to_frame table =
     [(''match_id'', map (\<lambda>r. Int64 (word_of_int (match_id r))) table),
      (''date'', map (\<lambda>r. Int64 (word_of_int (date r))) table),
      (''team1'', map (\<lambda>r. Str (team1 r)) table),
      (''team2'', map (\<lambda>r. Str (team2 r)) table),
      (''venue'', map (\<lambda>r. Str (venue r)) table),
      (''runs_team1'', map (\<lambda>r. Int64 (runs_team1 r)) table),
      (''runs_team2'', map (\<lambda>r. Int64 (runs_team2 r)) table)]"

text \<open>
  A frame whose scores were entered as runs/wickets, so that pandas keeps both runs
  columns as text, and a frame of two matches with numeric runs.
\<close>

definition text_frame :: frame where
  "text_frame =
     [(''match_id'', [Int64 1]), (''date'', [Int64 20240322]), (''team1'', [Str ''CSK'']),
      (''team2'', [Str ''RCB'']), (''venue'', [Str ''Chennai'']),
      (''runs_team1'', [Str ''176/4'']), (''runs_team2'', [Str ''173/6''])]"

definition numeric_frame :: frame where
  "numeric_frame =
     [(''match_id'', [Int64 1, Int64 2]), (''date'', [Int64 20240322, Int64 20240323]),
      (''team1'', [Str ''CSK'', Str ''MI'']), (''team2'', [Str ''RCB'', Str ''KKR'']),
      (''venue'', [Str ''Chennai'', Str ''Mumbai'']),
      (''runs_team1'', [Int64 176, Int64 160]), (''runs_team2'', [Int64 173, Int64 160])]"

section \<open>The team series\<close>

text \<open>
  Lines 70-72:
  \<^verbatim>\<open>
  team_df = df[(df.team1 == team) | (df.team2 == team)].copy()
  team_df["team_runs"] = team_df.apply(lambda r: r["runs_team1"] if r["team1"] == team else r["runs_team2"], axis=1)
  team_df = team_df.sort_values("date")
  \<close>
  A row of \<open>team_df\<close> is a row of the match table with the column \<open>team_runs\<close> added.
\<close>

record team_row = match_row +
  team_runs :: int64

definition plays :: "string \<Rightarrow> match_row \<Rightarrow> bool" where
  "plays name r \<longleftrightarrow> team1 r = name \<or> team2 r = name"

definition add_team_runs :: "string \<Rightarrow> match_row \<Rightarrow> team_row" where
  "add_team_runs name r =
     match_row.extend r
       (team_row.fields (if team1 r = name then runs_team1 r else runs_team2 r))"

text \<open>
  \<open>sort_values("date")\<close> is called with the default \<open>kind="quicksort"\<close>, which pandas
  hands to NumPy's \<open>argsort\<close>. That sort is not stable: pandas and NumPy promise the
  rows back in ascending order of the key and nothing about the order of rows with equal
  keys, which depends on the library's algorithm (an introsort, or a vectorised sort
  where the processor has one). The call is therefore a relation between the frame and
  the results the library may return: any ordering of the same rows by ascending date.
\<close>

definition sort_values_date :: "team_row list \<Rightarrow> team_row list \<Rightarrow> bool" where
  "sort_values_date rows out \<longleftrightarrow> mset out = mset rows \<and> sorted (map date out)"

definition team_df :: "match_row list \<Rightarrow> string \<Rightarrow> team_row list \<Rightarrow> bool" where
  "team_df df name out \<longleftrightarrow>
     sort_values_date (map (add_team_runs name) (filter (plays name) df)) out"

text \<open>
  A season of eighteen matches of one team in date order, the eighth and ninth on the
  same day, and the order in which an introsort returns them that partitions around the
  median of three, as NumPy's quicksort does on more than seventeen rows: the pivot is
  the ninth match, and the partition leaves it in front of the eighth. A short table of
  three matches on distinct days follows.
\<close>

definition fixture :: "int \<times> int \<Rightarrow> match_row" where
  "fixture p = \<lparr>match_id = fst p, date = snd p, team1 = ''CSK'', team2 = ''MI'',
                 venue = ''Chennai'', runs_team1 = 150 + word_of_int (fst p),
                 runs_team2 = 140\<rparr>"

definition season :: "match_row list" where
  "season = map fixture
     [(0, 1), (1, 2), (2, 3), (3, 4), (4, 5), (5, 6), (6, 7), (7, 8), (8, 8),
      (9, 10), (10, 11), (11, 12), (12, 13), (13, 14), (14, 15), (15, 16), (16, 17),
      (17, 18)]"

definition season_swapped :: "team_row list" where
  "season_swapped = map (add_team_runs ''CSK'' \<circ> fixture)
     [(0, 1), (1, 2), (2, 3), (3, 4), (4, 5), (5, 6), (6, 7), (8, 8), (7, 8),
      (9, 10), (10, 11), (11, 12), (12, 13), (13, 14), (14, 15), (15, 16), (16, 17),
      (17, 18)]"

definition opening_week :: "match_row list" where
  "opening_week =
     [\<lparr>match_id = 3, date = 9, team1 = ''RCB'', team2 = ''CSK'', venue = ''Bengaluru'',
        runs_team1 = 181, runs_team2 = 184\<rparr>,
      \<lparr>match_id = 2, date = 5, team1 = ''MI'', team2 = ''KKR'', venue = ''Mumbai'',
        runs_team1 = 160, runs_team2 = 158\<rparr>,
      \<lparr>match_id = 1, date = 2, team1 = ''CSK'', team2 = ''MI'', venue = ''Chennai'',
        runs_team1 = 172, runs_team2 = 169\<rparr>]"

definition opening_week_csk :: "team_row list" where
  "opening_week_csk =
     [\<lparr>match_id = 1, date = 2, team1 = ''CSK'', team2 = ''MI'', venue = ''Chennai'',
        runs_team1 = 172, runs_team2 = 169, team_runs = 172\<rparr>,
      \<lparr>match_id = 3, date = 9, team1 = ''RCB'', team2 = ''CSK'', venue = ''Bengaluru'',
        runs_team1 = 181, runs_team2 = 184, team_runs = 184\<rparr>]"

section \<open>Column arithmetic with the special values of \<open>float64\<close>\<close>

text \<open>
  pandas and NumPy compute on \<open>float64\<close> columns and do not raise on a division by
  zero: the quotient is an infinity, or NaN for \<open>0 / 0\<close>. A value is therefore a finite
  number or one of the three special values. Finite values are exact reals here
  (rounding is not modelled, nor the sign of zero: a zero divisor counts as \<open>+0.0\<close>);
  the special values follow IEEE 754.
\<close>

datatype float64 = Fin real | PInf | NInf | NaN

fun fdiv :: "float64 \<Rightarrow> float64 \<Rightarrow> float64" where
  "fdiv NaN _ = NaN"
| "fdiv _ NaN = NaN"
| "fdiv (Fin a) (Fin b) =
     (if b \<noteq> 0 then Fin (a / b) else if a = 0 then NaN else if 0 < a then PInf else NInf)"
| "fdiv (Fin a) PInf = Fin 0"
| "fdiv (Fin a) NInf = Fin 0"
| "fdiv PInf (Fin b) = (if 0 \<le> b then PInf else NInf)"
| "fdiv NInf (Fin b) = (if 0 \<le> b then NInf else PInf)"
| "fdiv PInf PInf = NaN"
| "fdiv PInf NInf = NaN"
| "fdiv NInf PInf = NaN"
| "fdiv NInf NInf = NaN"

fun fmul :: "float64 \<Rightarrow> float64 \<Rightarrow> float64" where
  "fmul NaN _ = NaN"
| "fmul _ NaN = NaN"
| "fmul (Fin a) (Fin b) = Fin (a * b)"
| "fmul (Fin a) PInf = (if a = 0 then NaN else if 0 < a then PInf else NInf)"
| "fmul (Fin a) NInf = (if a = 0 then NaN else if 0 < a then NInf else PInf)"
| "fmul PInf (Fin b) = (if b = 0 then NaN else if 0 < b then PInf else NInf)"
| "fmul NInf (Fin b) = (if b = 0 then NaN else if 0 < b then NInf else PInf)"
| "fmul PInf PInf = PInf"
| "fmul PInf NInf = NInf"
| "fmul NInf PInf = NInf"
| "fmul NInf NInf = PInf"

fun fadd :: "float64 \<Rightarrow> float64 \<Rightarrow> float64" where
  "fadd NaN _ = NaN"
| "fadd _ NaN = NaN"
| "fadd (Fin a) (Fin b) = Fin (a + b)"
| "fadd (Fin a) PInf = PInf"
| "fadd (Fin a) NInf = NInf"
| "fadd PInf (Fin b) = PInf"
| "fadd NInf (Fin b) = NInf"
| "fadd PInf PInf = PInf"
| "fadd PInf NInf = NaN"
| "fadd NInf PInf = NaN"
| "fadd NInf NInf = NInf"

fun fabs :: "float64 \<Rightarrow> float64" where
  "fabs (Fin a) = Fin \<bar>a\<bar>"
| "fabs PInf = PInf"
| "fabs NInf = PInf"
| "fabs NaN = NaN"

text \<open>The comparison \<open>x > y\<close>: every comparison with NaN is false.\<close>

fun fgt :: "float64 \<Rightarrow> float64 \<Rightarrow> bool" where
  "fgt NaN _ = False"
| "fgt _ NaN = False"
| "fgt (Fin a) (Fin b) = (b < a)"
| "fgt PInf PInf = False"
| "fgt PInf _ = True"
| "fgt NInf _ = False"
| "fgt (Fin a) PInf = False"
| "fgt (Fin a) NInf = True"

text \<open>
  \<open>Series.max()\<close> and \<open>Series.min()\<close> of a column of finite values; of an empty column
  they are NaN.
\<close>

fun col_max :: "real list \<Rightarrow> float64" where
  "col_max [] = NaN"
| "col_max (x # xs) = Fin (fold max xs x)"

fun col_min :: "real list \<Rightarrow> float64" where
  "col_min [] = NaN"
| "col_min (x # xs) = Fin (fold min xs x)"

section \<open>Analytics of a team series\<close>

text \<open>
  The analytics read the column \<open>team_runs\<close> of the series as \<open>float64\<close> values.
\<close>

definition runs_values :: "team_row list \<Rightarrow> real list" where
  "runs_values series = map (\<lambda>r. real_of_int (sint (team_runs r))) series"

text \<open>
  Line 98: \<^verbatim>\<open>team_df["rolling_avg"] = team_df["team_runs"].rolling(5).mean()\<close>.
  A rolling window of size \<open>window\<close> at position \<open>i\<close> holds the observations of the
  positions \<open>i - window + 1\<close> to \<open>i\<close> that exist; \<open>min_periods\<close> defaults to the window
  size, and a window with fewer observations yields NaN.
\<close>

definition rolling_mean :: "nat \<Rightarrow> real list \<Rightarrow> float64 list" where
  "rolling_mean window xs =
     map (\<lambda>i. let obs = drop (Suc i - window) (take (Suc i) xs)
              in if window \<le> length obs then Fin (sum_list obs / real (length obs)) else NaN)
         [0..<length xs]"

definition rolling_avg :: "team_row list \<Rightarrow> float64 list" where
  "rolling_avg series = rolling_mean 5 (runs_values series)"

text \<open>
  Line 126: \<^verbatim>\<open>z = np.abs(stats.zscore(team_df["team_runs"]))\<close>.
  \<open>scipy.stats.zscore(a)\<close> is called with its default \<open>ddof=0\<close> and computes
  \<open>(a - a.mean()) / a.std(ddof=0)\<close>, where \<open>std\<close> is the square root of the mean of the
  squared absolute deviations, the divisor being \<open>n - ddof\<close>. A zero standard deviation
  is not an error: the quotient is NaN or an infinity. The mean and the standard
  deviation are only used on a non-empty column. The scores are given to working
  precision: the rounding of each \<open>float64\<close> operation is not modelled.
\<close>

definition mean :: "real list \<Rightarrow> real" where
  "mean a = sum_list a / real (length a)"

definition std :: "nat \<Rightarrow> real list \<Rightarrow> real" where
  "std ddof a =
     sqrt (sum_list (map (\<lambda>x. \<bar>x - mean a\<bar>\<^sup>2) a) / (real (length a) - real ddof))"

definition zscore :: "real list \<Rightarrow> float64 list" where
  "zscore a = (let mn = mean a; sd = std 0 a in map (\<lambda>x. fdiv (Fin (x - mn)) (Fin sd)) a)"

text \<open>
  The two standard deviations of the specification's open question: the population
  one divides the sum of squared deviations by \<open>n\<close>, the sample one by \<open>n - 1\<close>.
\<close>

definition population_std :: "real list \<Rightarrow> real" where
  "population_std xs = sqrt ((\<Sum>x\<leftarrow>xs. (x - mean xs)\<^sup>2) / real (length xs))"

definition sample_std :: "real list \<Rightarrow> real" where
  "sample_std xs = sqrt ((\<Sum>x\<leftarrow>xs. (x - mean xs)\<^sup>2) / real (length xs - 1))"

text \<open>
  Lines 135-142:
  \<^verbatim>\<open>
  if len(team_df) >= 5:
      X = np.arange(len(team_df)).reshape(-1, 1)
      y = team_df["team_runs"]
      model = LinearRegression().fit(X, y)
      prediction = model.predict([[len(team_df)]])[0]
      st.success(...)
  else:
      st.info("Need at least 5 matches for prediction.")
  \<close>
  \<open>LinearRegression().fit\<close> (with its default \<open>fit_intercept=True\<close>) centres \<open>X\<close> and
  \<open>y\<close> on their means, solves the centred least-squares problem for the coefficient,
  which for a single feature is the quotient below, and sets the intercept to
  \<open>y_offset - X_offset * coef\<close>; \<open>predict\<close> evaluates \<open>x * coef + intercept\<close>. The
  message of the \<open>else\<close> branch is the result \<open>None\<close>.
\<close>

definition fit :: "real list \<Rightarrow> real list \<Rightarrow> real \<times> real" where
  "fit X y =
     (let X_offset = mean X;
          y_offset = mean y;
          coef = sum_list (map2 (\<lambda>x v. (x - X_offset) * (v - y_offset)) X y)
                 / sum_list (map (\<lambda>x. (x - X_offset)\<^sup>2) X);
          intercept = y_offset - X_offset * coef
      in (coef, intercept))"

definition prediction :: "team_row list \<Rightarrow> real option" where
  "prediction series =
     (if 5 \<le> length series
      then (let X = map real [0..<length series];
                y = runs_values series;
                (coef, intercept) = fit X y
            in Some (real (length series) * coef + intercept))
      else None)"

text \<open>
  The sum of squared residuals of the line \<open>a + b * i\<close> against a series indexed from 0:
  what a least-squares fit minimises.
\<close>

definition sse :: "real list \<Rightarrow> real \<Rightarrow> real \<Rightarrow> real" where
  "sse ys a b = (\<Sum>i<length ys. (ys ! i - (a + b * real i))\<^sup>2)"

text \<open>Series of one team with given runs, numbered by day.\<close>

definition played :: "int \<times> int64 \<Rightarrow> team_row" where
  "played p = add_team_runs ''CSK''
     \<lparr>match_id = fst p, date = fst p, team1 = ''CSK'', team2 = ''MI'', venue = ''Chennai'',
      runs_team1 = snd p, runs_team2 = 150\<rparr>"

definition linear_series :: "team_row list" where
  "linear_series = map played [(1, 10), (2, 20), (3, 30), (4, 40), (5, 50)]"

definition spike_series :: "team_row list" where
  "spike_series = map played [(1, 100), (2, 102), (3, 98), (4, 101), (5, 99), (6, 500)]"

definition spread_series :: "team_row list" where
  "spread_series =
     map played [(1, 2), (2, 4), (3, 4), (4, 4), (5, 5), (6, 5), (7, 7), (8, 9)]"

section \<open>The player table and its scores\<close>

record player =
  player_name :: string
  team :: string
  runs :: real
  wickets :: real
  strike_rate :: real
  economy :: real

text \<open>
  Lines 185-193. Each derived column is given as the value it holds in the row of
  player \<open>p\<close> of the table \<open>players\<close>:
  \<^verbatim>\<open>
  players["bat_score"] = (
      (players["runs"] / players["runs"].max()) * 0.6 +
      (players["strike_rate"] / players["strike_rate"].max()) * 0.4)
  players["bowl_score"] = (
      (players["wickets"] / players["wickets"].max()) * 0.7 +
      ((players["economy"].min() / players["economy"]) * 0.3))
  players["performance_index"] = (players["bat_score"] + players["bowl_score"]) / 2
  \<close>
\<close>

definition bat_score :: "player list \<Rightarrow> player \<Rightarrow> float64" where
  "bat_score players p =
     fadd (fmul (fdiv (Fin (runs p)) (col_max (map runs players))) (Fin (6 / 10)))
          (fmul (fdiv (Fin (strike_rate p)) (col_max (map strike_rate players))) (Fin (4 / 10)))"

definition bowl_score :: "player list \<Rightarrow> player \<Rightarrow> float64" where
  "bowl_score players p =
     fadd (fmul (fdiv (Fin (wickets p)) (col_max (map wickets players))) (Fin (7 / 10)))
          (fmul (fdiv (col_min (map economy players)) (Fin (economy p))) (Fin (3 / 10)))"

definition performance_index :: "player list \<Rightarrow> player \<Rightarrow> float64" where
  "performance_index players p = fdiv (fadd (bat_score players p) (bowl_score players p)) (Fin 2)"

text \<open>A table of two all-rounders, and one of two bowlers who never batted.\<close>

definition allrounder_a :: player where
  "allrounder_a = \<lparr>player_name = ''A'', team = ''CSK'', runs = 500, wickets = 10,
                    strike_rate = 150, economy = 6\<rparr>"

definition allrounder_b :: player where
  "allrounder_b = \<lparr>player_name = ''B'', team = ''MI'', runs = 300, wickets = 5,
                    strike_rate = 120, economy = 8\<rparr>"

definition bowler_c :: player where
  "bowler_c = \<lparr>player_name = ''C'', team = ''RCB'', runs = 0, wickets = 12,
                strike_rate = 0, economy = 7\<rparr>"

definition bowler_d :: player where
  "bowler_d = \<lparr>player_name = ''D'', team = ''KKR'', runs = 0, wickets = 9,
                strike_rate = 0, economy = 9\<rparr>"

section \<open>Winner and margin\<close>

lemma sint_sub_nonneg:
  fixes a b :: int64
  assumes "0 \<le> sint a" and "0 \<le> sint b"
  shows "sint (a - b) = sint a - sint b"
proof -
  have ua: "sint a < 2 ^ 63" using sint_lt [of a] by simp
  have ub: "sint b < 2 ^ 63" using sint_lt [of b] by simp
  have "sint (a - b) = signed_take_bit 63 (sint a - sint b)"
    by (simp add: sint_word_ariths)
  also have "\<dots> = sint a - sint b"
    using assms ua ub by (intro signed_take_bit_int_eq_self) auto
  finally show ?thesis .
qed

lemma sint_abs_int64:
  fixes x :: int64
  assumes "- (2 ^ 63) < sint x"
  shows "sint (abs_int64 x) = \<bar>sint x\<bar>"
proof (cases "sint x < 0")
  case True
  have "sint (- x) = signed_take_bit 63 (- sint x)"
    by (simp add: sint_word_ariths)
  also have "\<dots> = - sint x"
    using assms sint_lt [of x] True by (intro signed_take_bit_int_eq_self) auto
  finally show ?thesis using True by (simp add: abs_int64_def)
next
  case False
  then show ?thesis by (simp add: abs_int64_def)
qed

lemma sint_margin:
  assumes "0 \<le> sint (runs_team1 r)" and "0 \<le> sint (runs_team2 r)"
  shows "sint (margin r) = \<bar>sint (runs_team1 r) - sint (runs_team2 r)\<bar>"
proof -
  have d: "sint (runs_team1 r - runs_team2 r) = sint (runs_team1 r) - sint (runs_team2 r)"
    using assms by (rule sint_sub_nonneg)
  have "sint (runs_team2 r) < 2 ^ 63" using sint_lt [of "runs_team2 r"] by simp
  with assms d have "- (2 ^ 63) < sint (runs_team1 r - runs_team2 r)" by simp
  then show ?thesis
    unfolding margin_def by (simp add: sint_abs_int64 d)
qed

text \<open>
  Claim C1. For every row of the match table (runs being the non-negative integers of
  the data model), the winner is the team with strictly more runs whenever the runs
  differ, the winner is always one of the two teams, and the margin is the absolute
  difference of the runs: it is never negative and is zero only when the runs are equal.
\<close>

theorem winner_margin_correct:
  assumes "0 \<le> sint (runs_team1 r)" and "0 \<le> sint (runs_team2 r)"
  shows "(sint (runs_team1 r) > sint (runs_team2 r) \<longrightarrow> winner r = team1 r)
       \<and> (sint (runs_team1 r) < sint (runs_team2 r) \<longrightarrow> winner r = team2 r)
       \<and> winner r \<in> {team1 r, team2 r}
       \<and> sint (margin r) = \<bar>sint (runs_team1 r) - sint (runs_team2 r)\<bar>
       \<and> 0 \<le> sint (margin r)
       \<and> (sint (margin r) = 0 \<longleftrightarrow> runs_team1 r = runs_team2 r)"
proof -
  have m: "sint (margin r) = \<bar>sint (runs_team1 r) - sint (runs_team2 r)\<bar>"
    using assms by (rule sint_margin)
  have z: "sint (margin r) = 0 \<longleftrightarrow> runs_team1 r = runs_team2 r"
    using m by (auto intro: signed_word_eqI)
  show ?thesis using m z by (simp add: winner_def)
qed

theorem winner_margin_correct_witness:
  "0 \<le> sint (runs_team1 chennai_opener) \<and> 0 \<le> sint (runs_team2 chennai_opener)
   \<and> winner chennai_opener = ''CSK'' \<and> sint (margin chennai_opener) = 3"
proof -
  have h1: "0 \<le> sint (runs_team1 chennai_opener)" by (simp add: chennai_opener_def)
  have h2: "0 \<le> sint (runs_team2 chennai_opener)" by (simp add: chennai_opener_def)
  have g: "sint (runs_team1 chennai_opener) > sint (runs_team2 chennai_opener)"
    by (simp add: chennai_opener_def)
  from winner_margin_correct [OF h1 h2] g
  have "winner chennai_opener = team1 chennai_opener"
    and "sint (margin chennai_opener) =
         \<bar>sint (runs_team1 chennai_opener) - sint (runs_team2 chennai_opener)\<bar>"
    by blast+
  then show ?thesis using h1 h2 by (simp add: chennai_opener_def)
qed

text \<open>
  Claim C9. On a tie (equal runs) the derived winner is \<open>team2\<close>; \<open>team1\<close> is named
  only when its runs are strictly greater.
\<close>

theorem winner_tie_is_team2:
  "(runs_team1 r = runs_team2 r \<longrightarrow> winner r = team2 r)
   \<and> (winner r = team1 r \<and> team1 r \<noteq> team2 r \<longrightarrow> sint (runs_team1 r) > sint (runs_team2 r))"
  by (simp add: winner_def)

theorem winner_tie_is_team2_witness:
  "runs_team1 mumbai_tie = runs_team2 mumbai_tie \<and> winner mumbai_tie = ''KKR''"
proof -
  have h: "runs_team1 mumbai_tie = runs_team2 mumbai_tie" by (simp add: mumbai_tie_def)
  with winner_tie_is_team2 [of mumbai_tie] have "winner mumbai_tie = team2 mumbai_tie"
    by blast
  then show ?thesis using h by (simp add: mumbai_tie_def)
qed

section \<open>Validation of the uploaded frame\<close>

lemma and_then_Inr [simp]: "and_then (Inr v) f = f v"
  by (simp add: and_then_def)

lemma and_then_Inl [simp]: "and_then (Inl e) f = Inl e"
  by (simp add: and_then_def)

lemma zip4_runs:
  "(a, b, r1, r2) \<in> set (zip t1 (zip t2 (zip c1 c2))) \<Longrightarrow> r1 \<in> set c1 \<and> r2 \<in> set c2"
  by (meson set_zip_leftD set_zip_rightD)

lemma map_of_setitem: "map_of (setitem df k c) = (map_of df)(k \<mapsto> c)"
  by (induction df k c rule: setitem.induct) auto

lemma getitem_setitem_other:
  "k \<noteq> name \<Longrightarrow> getitem (setitem df k c) name = getitem df name"
  by (simp add: getitem_def map_of_setitem)

lemma getitem_present:
  assumes "name \<in> set (map fst df)"
  shows "\<exists>c. getitem df name = Inr c \<and> map_of df name = Some c"
proof -
  from assms have "map_of df name \<noteq> None" by (simp add: map_of_eq_None_iff)
  then show ?thesis by (auto simp: getitem_def)
qed

lemma sequence_winner_numeric:
  assumes "\<forall>(t1, t2, r1, r2)\<in>set rws. is_numeric r1 \<and> is_numeric r2"
  shows "\<exists>w. sequence (map (\<lambda>(t1, t2, r1, r2).
                 and_then (py_gt r1 r2) (\<lambda>g. Inr (if g then t1 else t2))) rws) = Inr w"
  using assms
proof (induction rws)
  case Nil
  then show ?case by simp
next
  case (Cons x rws)
  obtain t1 t2 r1 r2 where x: "x = (t1, t2, r1, r2)" by (cases x) auto
  with Cons.prems obtain a b where "r1 = Int64 a" "r2 = Int64 b"
    by (cases r1; cases r2) auto
  with Cons x show ?case by auto
qed

lemma sequence_margin_numeric:
  assumes "\<forall>(r1, r2)\<in>set rws. is_numeric r1 \<and> is_numeric r2"
  shows "\<exists>m. sequence (map (\<lambda>(r1, r2). and_then (py_sub r1 r2) py_abs) rws) = Inr m"
  using assms
proof (induction rws)
  case Nil
  then show ?case by simp
next
  case (Cons x rws)
  obtain r1 r2 where x: "x = (r1, r2)" by (cases x) auto
  with Cons.prems obtain a b where "r1 = Int64 a" "r2 = Int64 b"
    by (cases r1; cases r2) auto
  with Cons x show ?case by auto
qed

lemma numeric_frame_proceeds:
  assumes req: "set required_cols \<subseteq> set (map fst df)" and num: "numeric_runs df"
  shows "\<exists>w m. preprocess df = Inr (setitem (setitem df ''winner'' w) ''margin'' m)"
proof -
  from req obtain c1 where c1: "getitem df ''runs_team1'' = Inr c1" "map_of df ''runs_team1'' = Some c1"
    using getitem_present [of "''runs_team1''" df] by (auto simp: required_cols_def)
  from req obtain c2 where c2: "getitem df ''runs_team2'' = Inr c2" "map_of df ''runs_team2'' = Some c2"
    using getitem_present [of "''runs_team2''" df] by (auto simp: required_cols_def)
  from req obtain t1 where t1: "getitem df ''team1'' = Inr t1"
    using getitem_present [of "''team1''" df] by (auto simp: required_cols_def)
  from req obtain t2 where t2: "getitem df ''team2'' = Inr t2"
    using getitem_present [of "''team2''" df] by (auto simp: required_cols_def)
  from num c1 c2 have n1: "\<forall>x\<in>set c1. is_numeric x" and n2: "\<forall>x\<in>set c2. is_numeric x"
    by (simp_all add: numeric_runs_def list_all_iff)
  have "\<forall>(a, b, r1, r2)\<in>set (zip t1 (zip t2 (zip c1 c2))). is_numeric r1 \<and> is_numeric r2"
    using n1 n2 by (auto dest: zip4_runs)
  then obtain w where w: "sequence (map (\<lambda>(t1, t2, r1, r2).
        and_then (py_gt r1 r2) (\<lambda>g. Inr (if g then t1 else t2))) (zip t1 (zip t2 (zip c1 c2)))) = Inr w"
    using sequence_winner_numeric by blast
  have "\<forall>(r1, r2)\<in>set (zip c1 c2). is_numeric r1 \<and> is_numeric r2"
    using n1 n2 by (auto dest: set_zip_rightD set_zip_leftD)
  then obtain m where m: "sequence (map (\<lambda>(r1, r2). and_then (py_sub r1 r2) py_abs) (zip c1 c2)) = Inr m"
    using sequence_margin_numeric by blast
  have aw: "add_winner df = Inr (setitem df ''winner'' w)"
    by (simp add: add_winner_def t1 t2 c1 c2 w)
  have am: "add_margin (setitem df ''winner'' w) = Inr (setitem (setitem df ''winner'' w) ''margin'' m)"
    by (simp add: add_margin_def getitem_setitem_other c1 c2 m)
  have "validate df = Inr ()" using req by (simp add: validate_def)
  then have "preprocess df = Inr (setitem (setitem df ''winner'' w) ''margin'' m)"
    by (simp add: preprocess_def aw am)
  then show ?thesis by blast
qed

lemma sequence_map_Inr: "sequence (map (\<lambda>x. Inr (f x)) xs) = Inr (map f xs)"
  by (induction xs) simp_all

lemma winner_column:
  "sequence (map (\<lambda>(t1, t2, r1, r2). and_then (py_gt r1 r2) (\<lambda>g. Inr (if g then t1 else t2)))
              (zip (map (\<lambda>r. Str (team1 r)) table) (zip (map (\<lambda>r. Str (team2 r)) table)
                (zip (map (\<lambda>r. Int64 (runs_team1 r)) table)
                     (map (\<lambda>r. Int64 (runs_team2 r)) table)))))
   = Inr (map (\<lambda>r. Str (winner r)) table)"
  by (induction table) (simp_all add: winner_def)

lemma margin_column:
  "sequence (map (\<lambda>(r1, r2). and_then (py_sub r1 r2) py_abs)
              (zip (map (\<lambda>r. Int64 (runs_team1 r)) table)
                   (map (\<lambda>r. Int64 (runs_team2 r)) table)))
   = Inr (map (\<lambda>r. Int64 (margin r)) table)"
  by (induction table) (simp_all add: margin_def)

lemma preprocess_to_frame:
  "preprocess (to_frame table) =
     Inr (to_frame table @ [(''winner'', map (\<lambda>r. Str (winner r)) table),
                            (''margin'', map (\<lambda>r. Int64 (margin r)) table)])"
proof -
  have v: "validate (to_frame table) = Inr ()"
    by (simp add: validate_def to_frame_def required_cols_def)
  have aw: "add_winner (to_frame table) =
            Inr (to_frame table @ [(''winner'', map (\<lambda>r. Str (winner r)) table)])"
    by (simp add: add_winner_def to_frame_def getitem_def winner_column)
  have am: "add_margin (to_frame table @ [(''winner'', map (\<lambda>r. Str (winner r)) table)])
      = Inr (to_frame table @ [(''winner'', map (\<lambda>r. Str (winner r)) table),
                            (''margin'', map (\<lambda>r. Int64 (margin r)) table)])"
    by (simp add: add_margin_def to_frame_def getitem_def margin_column)
  show ?thesis by (simp add: preprocess_def v aw am)
qed

text \<open>
  Claim C8, as the specification states it: validation fails, before any derived
  computation, also when the runs columns are not numeric. The check of lines 55-58
  looks at column names only. On a frame with every required column whose runs are
  text, validation passes, the winner column is computed (by comparing the strings),
  and the failure is the \<open>TypeError\<close> of the subtraction of line 62.
\<close>

theorem text_runs_pass_validation:
  "set required_cols \<subseteq> set (map fst text_frame)
   \<and> \<not> numeric_runs text_frame
   \<and> validate text_frame = Inr ()
   \<and> add_winner text_frame = Inr (text_frame @ [(''winner'', [Str ''CSK''])])
   \<and> preprocess text_frame = Inl TypeError"
proof -
  have a: "set required_cols \<subseteq> set (map fst text_frame)"
    by (simp add: required_cols_def text_frame_def)
  have b: "\<not> numeric_runs text_frame"
    by (simp add: numeric_runs_def text_frame_def)
  have c: "validate text_frame = Inr ()"
    using a by (simp add: validate_def)
  have d: "add_winner text_frame = Inr (text_frame @ [(''winner'', [Str ''CSK''])])"
    by (simp add: add_winner_def getitem_def text_frame_def)
  have e: "add_margin (text_frame @ [(''winner'', [Str ''CSK''])]) = Inl TypeError"
    by (simp add: add_margin_def getitem_def text_frame_def)
  have "preprocess text_frame = Inl TypeError"
    by (simp add: preprocess_def c d e)
  with a b c d show ?thesis by blast
qed

text \<open>
  Claim C8, amended. For every match table that has been read, validation stops the
  pipeline with the list of missing columns, before any derived computation, whenever a
  required column (\<open>match_id\<close>, \<open>date\<close>, \<open>team1\<close>, \<open>team2\<close>, \<open>venue\<close>, \<open>runs_team1\<close>,
  \<open>runs_team2\<close>) is absent. It does not look at the type of the runs columns: when all
  required columns are present validation passes and the derived computation runs,
  and when the runs columns are numeric it yields the frame with \<open>winner\<close> and
  \<open>margin\<close> added.
\<close>

theorem validation_checks_column_names:
  "(\<not> set required_cols \<subseteq> set (map fst df) \<longrightarrow>
      preprocess df = Inl (MissingColumns (set required_cols - set (map fst df))))
   \<and> (set required_cols \<subseteq> set (map fst df) \<longrightarrow>
        validate df = Inr () \<and> preprocess df = and_then (add_winner df) add_margin)
   \<and> (set required_cols \<subseteq> set (map fst df) \<and> numeric_runs df \<longrightarrow>
        (\<exists>w m. preprocess df = Inr (setitem (setitem df ''winner'' w) ''margin'' m)))"
  using numeric_frame_proceeds [of df]
  by (simp add: preprocess_def validate_def)

theorem validation_checks_column_names_witness:
  "preprocess (tl numeric_frame) = Inl (MissingColumns {''match_id''})
   \<and> validate numeric_frame = Inr ()
   \<and> (\<exists>w m. preprocess numeric_frame =
              Inr (setitem (setitem numeric_frame ''winner'' w) ''margin'' m))"
proof -
  have a: "set required_cols \<subseteq> set (map fst numeric_frame)"
    by (simp add: required_cols_def numeric_frame_def)
  have b: "numeric_runs numeric_frame"
    by (simp add: numeric_runs_def numeric_frame_def)
  have c: "\<not> set required_cols \<subseteq> set (map fst (tl numeric_frame))"
    by (simp add: required_cols_def numeric_frame_def)
  have d: "set required_cols - set (map fst (tl numeric_frame)) = {''match_id''}"
    by (auto simp: required_cols_def numeric_frame_def)
  from a b validation_checks_column_names [of numeric_frame]
  have e: "validate numeric_frame = Inr ()"
    and f: "\<exists>w m. preprocess numeric_frame =
              Inr (setitem (setitem numeric_frame ''winner'' w) ''margin'' m)"
    by blast+
  from c d validation_checks_column_names [of "tl numeric_frame"]
  have "preprocess (tl numeric_frame) = Inl (MissingColumns {''match_id''})"
    by simp
  with e f show ?thesis by blast
qed

section \<open>Team-series extraction\<close>

lemma truncate_add_team_runs [simp]: "match_row.truncate (add_team_runs t r) = r"
  by (simp add: add_team_runs_def match_row.defs team_row.defs)

lemma team_runs_add_team_runs [simp]:
  "team_runs (add_team_runs t r) = (if team1 r = t then runs_team1 r else runs_team2 r)"
  by (simp add: add_team_runs_def match_row.defs team_row.defs)

lemma fields_add_team_runs [simp]:
  "date (add_team_runs t r) = date r" "team1 (add_team_runs t r) = team1 r"
  "team2 (add_team_runs t r) = team2 r" "runs_team1 (add_team_runs t r) = runs_team1 r"
  "runs_team2 (add_team_runs t r) = runs_team2 r" "match_id (add_team_runs t r) = match_id r"
  by (simp_all add: add_team_runs_def match_row.defs team_row.defs)

lemma sorted_permutation_unique:
  assumes "mset ys = mset xs" and "sorted (map f ys)" and "distinct (map f xs)"
  shows "ys = sort_key f xs"
  by (metis assms distinct_map sort_key_inj_key_eq)

lemma season_rows:
  "map (add_team_runs ''CSK'') (filter (plays ''CSK'') season) =
   map (add_team_runs ''CSK'' \<circ> fixture)
     [(0, 1), (1, 2), (2, 3), (3, 4), (4, 5), (5, 6), (6, 7), (7, 8), (8, 8),
      (9, 10), (10, 11), (11, 12), (12, 13), (13, 14), (14, 15), (15, 16), (16, 17),
      (17, 18)]"
  by (simp add: season_def fixture_def plays_def)

lemma season_swapped_result: "team_df season ''CSK'' season_swapped"
  unfolding team_df_def sort_values_date_def season_rows season_swapped_def
  by (simp add: fixture_def)

text \<open>
  Claim C3, as the specification states it: the extracted series is stable-sorted, rows
  of equal date keeping their original order. For the season of eighteen matches the
  sort may return the ninth match before the eighth (as an introsort that partitions
  around the median of three does), although the eighth was played on the same day and
  stands before it in the table.
\<close>

theorem tie_order_not_stable:
  "team_df season ''CSK'' season_swapped
   \<and> map match_id (filter (plays ''CSK'') season) =
       [0, 1, 2, 3, 4, 5, 6, 7, 8, 9, 10, 11, 12, 13, 14, 15, 16, 17]
   \<and> map match_id season_swapped =
       [0, 1, 2, 3, 4, 5, 6, 8, 7, 9, 10, 11, 12, 13, 14, 15, 16, 17]
   \<and> date (season_swapped ! 7) = date (season_swapped ! 8)
   \<and> season_swapped \<noteq>
       sort_key date (map (add_team_runs ''CSK'') (filter (plays ''CSK'') season))"
proof -
  have a: "map match_id (filter (plays ''CSK'') season) =
       [0, 1, 2, 3, 4, 5, 6, 7, 8, 9, 10, 11, 12, 13, 14, 15, 16, 17]"
    by (simp add: season_def fixture_def plays_def)
  have b: "map match_id season_swapped =
       [0, 1, 2, 3, 4, 5, 6, 8, 7, 9, 10, 11, 12, 13, 14, 15, 16, 17]"
    by (simp add: season_swapped_def fixture_def)
  have c: "date (season_swapped ! 7) = date (season_swapped ! 8)"
    by (simp add: season_swapped_def fixture_def)
  have k: "map match_id
          (sort_key date (map (add_team_runs ''CSK'') (filter (plays ''CSK'') season))) =
       [0, 1, 2, 3, 4, 5, 6, 7, 8, 9, 10, 11, 12, 13, 14, 15, 16, 17]"
    unfolding season_rows by (simp add: fixture_def)
  have d: "season_swapped \<noteq>
       sort_key date (map (add_team_runs ''CSK'') (filter (plays ''CSK'') season))"
  proof
    assume e: "season_swapped =
       sort_key date (map (add_team_runs ''CSK'') (filter (plays ''CSK'') season))"
    have "map match_id season_swapped =
       [0, 1, 2, 3, 4, 5, 6, 7, 8, 9, 10, 11, 12, 13, 14, 15, 16, 17]"
      unfolding e by (rule k)
    with b show False by simp
  qed
  show ?thesis using season_swapped_result a b c d by blast
qed

text \<open>
  Claim C3, amended. For every match table and team name, a result of the team-series
  extraction holds exactly the rows in which the team is \<open>team1\<close> or \<open>team2\<close> (none
  dropped or duplicated), each with \<open>team_runs\<close> from the side the team played on, in
  ascending order of date. The order of rows with equal dates is not fixed; when the
  team's dates are distinct the result is the date-sorted series.
\<close>

theorem team_series_sorted_permutation:
  assumes "team_df df name out"
  shows "mset (map match_row.truncate out) = mset (filter (plays name) df)
       \<and> (\<forall>r\<in>set out. plays name (match_row.truncate r)
              \<and> team_runs r = (if team1 r = name then runs_team1 r else runs_team2 r))
       \<and> sorted (map date out)
       \<and> (distinct (map date (filter (plays name) df))
            \<longrightarrow> out = sort_key date (map (add_team_runs name) (filter (plays name) df)))"
proof -
  let ?rows = "map (add_team_runs name) (filter (plays name) df)"
  have m: "mset out = mset ?rows" and s: "sorted (map date out)"
    using assms by (simp_all add: team_df_def sort_values_date_def)
  have "mset (map match_row.truncate out) = image_mset match_row.truncate (mset ?rows)"
    using m by (metis mset_map)
  also have "\<dots> = mset (filter (plays name) df)"
    by (simp add: multiset.map_comp comp_def)
  finally have a: "mset (map match_row.truncate out) = mset (filter (plays name) df)" .
  have b: "plays name (match_row.truncate r)
           \<and> team_runs r = (if team1 r = name then runs_team1 r else runs_team2 r)"
    if "r \<in> set out" for r
  proof -
    from that m have "r \<in> set ?rows" by (metis set_mset_mset)
    then obtain r0 where "r = add_team_runs name r0" and "plays name r0" by auto
    then show ?thesis by simp
  qed
  have c: "out = sort_key date ?rows" if "distinct (map date (filter (plays name) df))"
  proof -
    have d: "map date ?rows = map date (filter (plays name) df)" by (simp add: comp_def)
    have "distinct (map date ?rows)" unfolding d by (rule that)
    with m s show ?thesis by (rule sorted_permutation_unique)
  qed
  show ?thesis using a b c s by blast
qed

theorem team_series_sorted_permutation_witness:
  "team_df opening_week ''CSK'' opening_week_csk
   \<and> mset (map match_row.truncate opening_week_csk) =
       mset (filter (plays ''CSK'') opening_week)
   \<and> sorted (map date opening_week_csk)
   \<and> map (sint \<circ> team_runs) opening_week_csk = [172, 184]"
proof -
  have h: "team_df opening_week ''CSK'' opening_week_csk"
    by (simp add: team_df_def sort_values_date_def opening_week_def opening_week_csk_def
        plays_def add_team_runs_def match_row.defs team_row.defs)
  have r: "map (sint \<circ> team_runs) opening_week_csk = [172, 184]"
    by (simp add: opening_week_csk_def)
  show ?thesis
    using h r team_series_sorted_permutation [OF h] by blast
qed

section \<open>Rolling average\<close>

lemma sum_list_window:
  assumes "s \<le> e" and "e \<le> length xs"
  shows "sum_list (drop s (take e xs)) = (\<Sum>k = s..<e. (xs ! k :: real))"
proof -
  have "sum_list (drop s (take e xs)) = (\<Sum>j = 0..<e - s. drop s (take e xs) ! j)"
    using assms by (simp add: sum_list_sum_nth min_def)
  also have "\<dots> = (\<Sum>j = 0..<e - s. xs ! (s + j))"
    using assms by (intro sum.cong) auto
  also have "\<dots> = (\<Sum>k = s..<e. xs ! k)"
    using assms sum.shift_bounds_nat_ivl [of "\<lambda>k. xs ! k" 0 s "e - s"]
    by (simp add: add.commute)
  finally show ?thesis .
qed

lemma rolling_mean_nth:
  assumes "i < length xs"
  shows "rolling_mean w xs ! i =
     (let obs = drop (Suc i - w) (take (Suc i) xs)
      in if w \<le> length obs then Fin (sum_list obs / real (length obs)) else NaN)"
  using assms by (simp add: rolling_mean_def)

lemma rolling_mean_full_window:
  assumes "i < length xs" and "4 \<le> i"
  shows "rolling_mean 5 xs ! i = Fin ((\<Sum>k = i - 4..i. xs ! k) / 5)"
proof -
  have s: "Suc i - 5 = i - 4" using assms by simp
  have l: "length (drop (i - 4) (take (Suc i) xs)) = 5" using assms by (auto simp: min_def)
  have "sum_list (drop (i - 4) (take (Suc i) xs)) = (\<Sum>k = i - 4..<Suc i. xs ! k)"
    using assms by (intro sum_list_window) auto
  also have "\<dots> = (\<Sum>k = i - 4..i. xs ! k)"
    by (simp only: atLeastLessThanSuc_atLeastAtMost)
  finally show ?thesis
    using assms by (simp only: rolling_mean_nth Let_def s l) simp
qed

lemma rolling_mean_short_window:
  assumes "i < length xs" and "i < 4"
  shows "rolling_mean 5 xs ! i = NaN"
  using assms by (simp add: rolling_mean_nth min_def)

lemma rolling_mean_causal:
  assumes "i < length xs" and "i < length ys" and "take (Suc i) ys = take (Suc i) xs"
  shows "rolling_mean w ys ! i = rolling_mean w xs ! i"
  using assms by (simp add: rolling_mean_nth)

text \<open>
  Claim C4. For every team series, the rolling average at position \<open>i\<close> (from 0) is
  the arithmetic mean of \<open>team_runs\<close> over the positions \<open>i - 4\<close> to \<open>i\<close> for every
  \<open>i \<ge> 4\<close>, and is the undefined marker NaN, not a number, for every \<open>i < 4\<close>. The
  window is causal: whatever follows position \<open>i\<close> in the series does not change the
  value at \<open>i\<close>.
\<close>

theorem rolling_avg_correct:
  assumes "i < length series"
  shows "length (rolling_avg series) = length series
       \<and> (4 \<le> i \<longrightarrow> rolling_avg series ! i =
             Fin ((\<Sum>k = i - 4..i. runs_values series ! k) / 5))
       \<and> (i < 4 \<longrightarrow> rolling_avg series ! i = NaN)
       \<and> (\<forall>later. rolling_avg (take (Suc i) series @ later) ! i = rolling_avg series ! i)"
proof -
  have n: "i < length (runs_values series)" using assms by (simp add: runs_values_def)
  have a: "length (rolling_avg series) = length series"
    by (simp add: rolling_avg_def rolling_mean_def runs_values_def)
  have b: "rolling_avg series ! i = Fin ((\<Sum>k = i - 4..i. runs_values series ! k) / 5)"
    if "4 \<le> i"
    unfolding rolling_avg_def using n that by (rule rolling_mean_full_window)
  have c: "rolling_avg series ! i = NaN" if "i < 4"
    unfolding rolling_avg_def using n that by (rule rolling_mean_short_window)
  have d: "rolling_avg (take (Suc i) series @ later) ! i = rolling_avg series ! i" for later
    unfolding rolling_avg_def
  proof (rule rolling_mean_causal)
    show "i < length (runs_values series)" by (rule n)
    show "i < length (runs_values (take (Suc i) series @ later))"
      using assms by (simp add: runs_values_def)
    show "take (Suc i) (runs_values (take (Suc i) series @ later)) =
          take (Suc i) (runs_values series)"
      using assms by (simp add: runs_values_def take_map)
  qed
  show ?thesis using a b c d by blast
qed

lemma runs_values_spike: "runs_values spike_series = [100, 102, 98, 101, 99, 500]"
  by (simp add: runs_values_def spike_series_def played_def)

theorem rolling_avg_correct_witness:
  "rolling_avg spike_series ! 5 = Fin 180 \<and> rolling_avg spike_series ! 4 = Fin 100
   \<and> rolling_avg spike_series ! 3 = NaN"
proof -
  have n: "length spike_series = 6" by (simp add: spike_series_def)
  have "rolling_avg spike_series ! 5 = Fin 180"
    using rolling_avg_correct [of 5 spike_series] n
    by (simp add: runs_values_spike eval_nat_numeral atLeastAtMostSuc_conv)
  moreover have "rolling_avg spike_series ! 4 = Fin 100"
    using rolling_avg_correct [of 4 spike_series] n
    by (simp add: runs_values_spike eval_nat_numeral atLeastAtMostSuc_conv)
  moreover have "rolling_avg spike_series ! 3 = NaN"
    using rolling_avg_correct [of 3 spike_series] n by simp
  ultimately show ?thesis by blast
qed

section \<open>The standard deviation of the scores\<close>

lemma std_nonneg: "0 \<le> std 0 a"
  by (auto simp: std_def intro!: divide_nonneg_nonneg sum_list_nonneg)

lemma population_std_eq: "population_std xs = std 0 xs"
  by (simp add: population_std_def std_def)

lemma short_series_no_spread:
  assumes "length xs < 2"
  shows "population_std xs = 0"
proof (cases xs)
  case Nil
  then show ?thesis by (simp add: population_std_def)
next
  case (Cons x rest)
  with assms have "xs = [x]" by simp
  then show ?thesis by (simp add: population_std_def mean_def)
qed

lemma sample_std_larger:
  assumes "population_std xs \<noteq> 0"
  shows "population_std xs < sample_std xs"
proof -
  let ?S = "\<Sum>x\<leftarrow>xs. (x - mean xs)\<^sup>2"
  have n: "2 \<le> length xs" using assms short_series_no_spread [of xs] by force
  have "0 \<le> ?S" by (rule sum_list_nonneg) auto
  moreover have "?S \<noteq> 0" using assms by (auto simp: population_std_def)
  ultimately have S: "0 < ?S" by simp
  have l: "real (length xs - 1) < real (length xs)" and m: "0 < real (length xs - 1)"
    using n by auto
  from l m have "0 < real (length xs) * real (length xs - 1)"
    by (intro mult_pos_pos) auto
  with S l have "?S / real (length xs) < ?S / real (length xs - 1)"
    by (intro divide_strict_left_mono)
  then show ?thesis by (simp add: population_std_def sample_std_def)
qed

text \<open>
  Claim C10. The standardized scores of the outlier detector use the population
  standard deviation (divisor \<open>n\<close>, \<open>ddof = 0\<close>), not the sample one (divisor
  \<open>n - 1\<close>): for every team series of nonzero variance each score is \<open>x - mean\<close>
  divided by the population standard deviation, which differs from the quotient by the
  sample standard deviation wherever \<open>x\<close> is not the mean.
\<close>

theorem zscore_population_std:
  assumes "population_std (runs_values series) \<noteq> 0" and "i < length series"
  shows "zscore (runs_values series) ! i =
           Fin ((runs_values series ! i - mean (runs_values series))
                / population_std (runs_values series))
       \<and> (runs_values series ! i \<noteq> mean (runs_values series) \<longrightarrow>
            zscore (runs_values series) ! i \<noteq>
              Fin ((runs_values series ! i - mean (runs_values series))
                   / sample_std (runs_values series)))"
proof -
  let ?xs = "runs_values series"
  have i: "i < length ?xs" using assms(2) by (simp add: runs_values_def)
  have nz: "std 0 ?xs \<noteq> 0" using assms(1) by (simp add: population_std_eq)
  have a: "zscore ?xs ! i = Fin ((?xs ! i - mean ?xs) / population_std ?xs)"
    using i nz by (simp add: zscore_def Let_def population_std_eq)
  have lt: "population_std ?xs < sample_std ?xs"
    using assms(1) by (rule sample_std_larger)
  have p: "0 < population_std ?xs"
    using assms(1) std_nonneg [of ?xs] by (simp add: population_std_eq)
  have b: "zscore ?xs ! i \<noteq> Fin ((?xs ! i - mean ?xs) / sample_std ?xs)"
    if d: "?xs ! i \<noteq> mean ?xs"
  proof
    assume "zscore ?xs ! i = Fin ((?xs ! i - mean ?xs) / sample_std ?xs)"
    with a have "Fin ((?xs ! i - mean ?xs) / population_std ?xs)
               = Fin ((?xs ! i - mean ?xs) / sample_std ?xs)" by (simp only:)
    then have "(?xs ! i - mean ?xs) / population_std ?xs
               = (?xs ! i - mean ?xs) / sample_std ?xs" by (simp only: float64.inject)
    moreover have "0 < sample_std ?xs" using p lt by simp
    ultimately have "sample_std ?xs = population_std ?xs"
      using p d by (auto simp: frac_eq_eq)
    with lt show False by simp
  qed
  show ?thesis using a b by blast
qed

lemma runs_values_spread: "runs_values spread_series = [2, 4, 4, 4, 5, 5, 7, 9]"
  by (simp add: runs_values_def spread_series_def played_def)

theorem zscore_population_std_witness:
  "population_std (runs_values spread_series) = 2
   \<and> zscore (runs_values spread_series) ! 7 = Fin 2"
proof -
  have m: "mean (runs_values spread_series) = 5"
    by (simp add: runs_values_spread mean_def)
  have "population_std (runs_values spread_series) = sqrt 4"
    unfolding population_std_def m by (simp add: runs_values_spread)
  then have p: "population_std (runs_values spread_series) = 2" by simp
  have n: "length spread_series = 8" by (simp add: spread_series_def)
  have "zscore (runs_values spread_series) ! 7 = Fin 2"
    using zscore_population_std [of spread_series 7] n
    by (simp add: p m) (simp add: runs_values_spread)
  with p show ?thesis by blast
qed

section \<open>Trend prediction\<close>

lemma sum_list_index: "sum_list (map f [0..<n]) = (\<Sum>i<n. (f i :: real))"
  by (simp add: interv_sum_list_conv_sum_set_nat atLeast0LessThan)

lemma sum_list_values: "sum_list ys = (\<Sum>i<length ys. (ys ! i :: real))"
  by (simp add: sum_list_sum_nth atLeast0LessThan)

lemma map2_index:
  "map2 f (map g [0..<length ys]) ys = map (\<lambda>i. f (g i) (ys ! i)) [0..<length ys]"
  by (rule nth_equalityI) auto

lemma fit_index:
  fixes ys :: "real list"
  defines "n \<equiv> length ys"
  defines "xb \<equiv> (\<Sum>i<n. real i) / real n"
  defines "yb \<equiv> (\<Sum>i<n. ys ! i) / real n"
  defines "b \<equiv> (\<Sum>i<n. (real i - xb) * (ys ! i - yb)) / (\<Sum>i<n. (real i - xb)\<^sup>2)"
  shows "fit (map real [0..<n]) ys = (b, yb - xb * b)"
proof -
  have mx: "mean (map real [0..<n]) = xb"
    by (simp add: mean_def xb_def sum_list_index)
  have my: "mean ys = yb"
    by (simp add: mean_def yb_def sum_list_values n_def)
  have sxy: "sum_list (map2 (\<lambda>x v. (x - xb) * (v - yb)) (map real [0..<n]) ys)
             = (\<Sum>i<n. (real i - xb) * (ys ! i - yb))"
    unfolding n_def map2_index by (simp only: sum_list_index)
  have sxx: "sum_list (map (\<lambda>x. (x - xb)\<^sup>2) (map real [0..<n])) = (\<Sum>i<n. (real i - xb)\<^sup>2)"
    by (simp add: comp_def sum_list_index)
  show ?thesis
    unfolding fit_def Let_def mx my sxy sxx b_def by simp
qed

lemma centred_sum_zero:
  fixes f :: "nat \<Rightarrow> real"
  assumes "0 < n"
  shows "(\<Sum>i<n. f i - (\<Sum>j<n. f j) / real n) = 0"
  using assms by (simp add: sum_subtractf)

lemma spread_positive:
  assumes "2 \<le> n"
  shows "0 < (\<Sum>i<n. (real i - c)\<^sup>2)"
proof (rule ccontr)
  assume "\<not> 0 < (\<Sum>i<n. (real i - c)\<^sup>2)"
  moreover have "0 \<le> (\<Sum>i<n. (real i - c)\<^sup>2)" by (rule sum_nonneg) simp
  ultimately have "(\<Sum>i<n. (real i - c)\<^sup>2) = 0" by simp
  then have z: "\<forall>i\<in>{..<n}. (real i - c)\<^sup>2 = 0"
    by (subst (asm) sum_nonneg_eq_0_iff) auto
  from assms z have "(real 0 - c)\<^sup>2 = 0" and "(real 1 - c)\<^sup>2 = 0" by auto
  then show False by simp
qed

lemma least_squares_gap:
  fixes y :: "nat \<Rightarrow> real"
  assumes n: "2 \<le> n"
  defines "xb \<equiv> (\<Sum>i<n. real i) / real n"
  defines "yb \<equiv> (\<Sum>i<n. y i) / real n"
  defines "b \<equiv> (\<Sum>i<n. (real i - xb) * (y i - yb)) / (\<Sum>i<n. (real i - xb)\<^sup>2)"
  defines "a \<equiv> yb - xb * b"
  shows "(\<Sum>i<n. (y i - (a' + b' * real i))\<^sup>2)
       = (\<Sum>i<n. (y i - (a + b * real i))\<^sup>2) + (\<Sum>i<n. ((a - a') + (b - b') * real i)\<^sup>2)"
proof -
  define r where "r i = (y i - yb) - b * (real i - xb)" for i
  define c where "c = (a - a') + (b - b') * xb"
  define d where "d = b - b'"
  have pos: "0 < n" using n by simp
  have sx: "(\<Sum>i<n. real i - xb) = 0" unfolding xb_def using pos by (rule centred_sum_zero)
  have sy: "(\<Sum>i<n. y i - yb) = 0" unfolding yb_def using pos by (rule centred_sum_zero)
  have sxx: "0 < (\<Sum>i<n. (real i - xb)\<^sup>2)" using n by (rule spread_positive)
  have "(\<Sum>i<n. r i) = (\<Sum>i<n. y i - yb) - (\<Sum>i<n. b * (real i - xb))"
    unfolding r_def by (rule sum_subtractf)
  also have "\<dots> = (\<Sum>i<n. y i - yb) - b * (\<Sum>i<n. real i - xb)"
    by (simp only: sum_distrib_left)
  also have "\<dots> = 0" by (simp add: sx sy)
  finally have r1: "(\<Sum>i<n. r i) = 0" .
  have pt: "r i * (real i - xb) = (real i - xb) * (y i - yb) - b * (real i - xb)\<^sup>2" for i
    by (simp add: r_def power2_eq_square algebra_simps)
  have "(\<Sum>i<n. r i * (real i - xb))
        = (\<Sum>i<n. (real i - xb) * (y i - yb)) - (\<Sum>i<n. b * (real i - xb)\<^sup>2)"
    by (simp only: pt sum_subtractf)
  also have "\<dots> = (\<Sum>i<n. (real i - xb) * (y i - yb)) - b * (\<Sum>i<n. (real i - xb)\<^sup>2)"
    by (simp only: sum_distrib_left)
  also have "\<dots> = 0" using sxx by (simp add: b_def)
  finally have r2: "(\<Sum>i<n. r i * (real i - xb)) = 0" .
  have fit_res: "y i - (a + b * real i) = r i" for i
    by (simp add: r_def a_def algebra_simps)
  have gap: "(a - a') + (b - b') * real i = c + d * (real i - xb)" for i
    by (simp add: c_def d_def algebra_simps)
  have other: "(y i - (a' + b' * real i))\<^sup>2
      = (r i)\<^sup>2 + 2 * c * r i + 2 * d * (r i * (real i - xb)) + (c + d * (real i - xb))\<^sup>2" for i
  proof -
    have e: "y i - (a' + b' * real i) = r i + (c + d * (real i - xb))"
      by (simp add: r_def c_def d_def a_def algebra_simps)
    show ?thesis unfolding e by (simp add: power2_eq_square algebra_simps)
  qed
  have "(\<Sum>i<n. (y i - (a' + b' * real i))\<^sup>2)
      = (\<Sum>i<n. (r i)\<^sup>2) + 2 * c * (\<Sum>i<n. r i) + 2 * d * (\<Sum>i<n. r i * (real i - xb))
        + (\<Sum>i<n. (c + d * (real i - xb))\<^sup>2)"
    by (simp only: other sum.distrib sum_distrib_left)
  also have "\<dots> = (\<Sum>i<n. (r i)\<^sup>2) + (\<Sum>i<n. (c + d * (real i - xb))\<^sup>2)"
    by (simp add: r1 r2)
  finally show ?thesis by (simp only: fit_res gap)
qed

lemma line_zero_on_two_points:
  fixes c d :: real
  assumes "2 \<le> n" and "(\<Sum>i<n. (c + d * real i)\<^sup>2) = 0"
  shows "c = 0 \<and> d = 0"
proof -
  have z: "\<forall>i\<in>{..<n}. (c + d * real i)\<^sup>2 = 0"
    using assms(2) by (subst (asm) sum_nonneg_eq_0_iff) auto
  have "(0::nat) \<in> {..<n}" and "(1::nat) \<in> {..<n}" using assms(1) by auto
  with z have "(c + d * real 0)\<^sup>2 = 0" and "(c + d * real 1)\<^sup>2 = 0" by blast+
  then have "c = 0" and "c + d = 0" by simp_all
  then show ?thesis by simp
qed

lemma runs_values_linear: "runs_values linear_series = [10, 20, 30, 40, 50]"
  by (simp add: runs_values_def linear_series_def played_def)

lemma prediction_linear: "prediction linear_series = Some 60"
proof -
  have n: "length linear_series = 5" by (simp add: linear_series_def)
  have u: "[0..<5] = [0, 1, 2, 3, 4 :: nat]" by code_simp
  show ?thesis
    by (simp add: prediction_def runs_values_linear fit_def mean_def Let_def n u)
qed

text \<open>
  Claim C6. For every team series of length \<open>n \<ge> 5\<close> the trend predictor returns the
  value at index \<open>n\<close>, one past the last observation, of the least-squares line of
  \<open>team_runs\<close> against the index from 0: the line \<open>a + b * i\<close> whose sum of squared
  residuals is least, and the only such line. On the series 10, 20, 30, 40, 50 it
  predicts 60. For every series of length \<open>n < 5\<close> it returns the "insufficient data"
  signal and raises nothing.
\<close>

theorem prediction_correct:
  "(5 \<le> length series \<longrightarrow>
      (\<exists>a b. prediction series = Some (a + b * real (length series))
         \<and> (\<forall>a' b'. sse (runs_values series) a b \<le> sse (runs_values series) a' b')
         \<and> (\<forall>a' b'. sse (runs_values series) a' b' = sse (runs_values series) a b
               \<longrightarrow> a' = a \<and> b' = b)))
   \<and> prediction linear_series = Some 60
   \<and> (length series < 5 \<longrightarrow> prediction series = None)"
proof (intro conjI impI)
  assume n5: "5 \<le> length series"
  let ?ys = "runs_values series"
  let ?n = "length ?ys"
  have len: "?n = length series" by (simp add: runs_values_def)
  define xb where "xb = (\<Sum>i<?n. real i) / real ?n"
  define yb where "yb = (\<Sum>i<?n. ?ys ! i) / real ?n"
  define b where "b = (\<Sum>i<?n. (real i - xb) * (?ys ! i - yb)) / (\<Sum>i<?n. (real i - xb)\<^sup>2)"
  define a where "a = yb - xb * b"
  have f: "fit (map real [0..<?n]) ?ys = (b, a)"
    unfolding a_def b_def yb_def xb_def by (rule fit_index)
  have p: "prediction series = Some (a + b * real (length series))"
    using n5 f by (simp add: prediction_def len mult.commute add.commute)
  have n2: "2 \<le> ?n" using n5 len by simp
  have gap: "sse ?ys a' b' = sse ?ys a b + (\<Sum>i<?n. ((a - a') + (b - b') * real i)\<^sup>2)" for a' b'
    unfolding sse_def a_def b_def yb_def xb_def using n2 by (rule least_squares_gap)
  have least: "sse ?ys a b \<le> sse ?ys a' b'" for a' b'
    unfolding gap [of a' b'] by (simp add: sum_nonneg)
  have uniq: "a' = a \<and> b' = b" if "sse ?ys a' b' = sse ?ys a b" for a' b'
  proof -
    from that gap [of a' b'] have "(\<Sum>i<?n. ((a - a') + (b - b') * real i)\<^sup>2) = 0" by simp
    with n2 have "a - a' = 0 \<and> b - b' = 0" by (rule line_zero_on_two_points)
    then show ?thesis by simp
  qed
  show "\<exists>a b. prediction series = Some (a + b * real (length series))
         \<and> (\<forall>a' b'. sse ?ys a b \<le> sse ?ys a' b')
         \<and> (\<forall>a' b'. sse ?ys a' b' = sse ?ys a b \<longrightarrow> a' = a \<and> b' = b)"
    using p least uniq by blast
next
  show "prediction linear_series = Some 60" by (rule prediction_linear)
next
  assume "length series < 5"
  then show "prediction series = None" by (simp add: prediction_def)
qed

theorem prediction_correct_witness:
  "5 \<le> length linear_series
   \<and> (\<exists>a b. prediction linear_series = Some (a + b * real (length linear_series))
         \<and> (\<forall>a' b'. sse (runs_values linear_series) a b
                        \<le> sse (runs_values linear_series) a' b'))
   \<and> prediction (take 4 linear_series) = None"
proof -
  have n: "5 \<le> length linear_series" by (simp add: linear_series_def)
  have s: "length (take 4 linear_series) < 5" by simp
  from n s prediction_correct [of linear_series] prediction_correct [of "take 4 linear_series"]
  show ?thesis by blast
qed

section \<open>Player scores\<close>

lemma col_max_eq:
  assumes "p \<in> set players" and "\<forall>q\<in>set players. f q \<le> f p"
  shows "col_max (map f players) = Fin (f p)"
proof (cases players)
  case Nil
  with assms show ?thesis by simp
next
  case (Cons a as)
  have "fold max (map f as) (f a) = Max (set (f a # map f as))"
    by (simp only: Max.set_eq_fold)
  also have "\<dots> = f p"
    using assms Cons by (intro Max_eqI) auto
  finally show ?thesis using Cons by simp
qed

lemma col_min_eq:
  assumes "p \<in> set players" and "\<forall>q\<in>set players. f p \<le> f q"
  shows "col_min (map f players) = Fin (f p)"
proof (cases players)
  case Nil
  with assms show ?thesis by simp
next
  case (Cons a as)
  have "fold min (map f as) (f a) = Min (set (f a # map f as))"
    by (simp only: Min.set_eq_fold)
  also have "\<dots> = f p"
    using assms Cons by (intro Min_eqI) auto
  finally show ?thesis using Cons by simp
qed

lemma col_max_upper:
  assumes "col_max (map f players) = Fin m" and "p \<in> set players"
  shows "f p \<le> m"
proof (cases players)
  case Nil
  with assms show ?thesis by simp
next
  case (Cons a as)
  have "fold max (map f as) (f a) = Max (set (f a # map f as))"
    by (simp only: Max.set_eq_fold)
  with assms Cons have "m = Max (set (map f players))" by simp
  moreover have "f p \<le> Max (set (map f players))"
    using assms(2) by (intro Max_ge) auto
  ultimately show ?thesis by simp
qed

lemma fadd_NaN_right [simp]: "fadd x NaN = NaN"
  by (cases x) simp_all

lemma fmul_NaN_right [simp]: "fmul x NaN = NaN"
  by (cases x) simp_all

lemma fdiv_NaN_right [simp]: "fdiv x NaN = NaN"
  by (cases x) simp_all

lemma zero_max_column:
  assumes "col_max (map f players) = Fin 0" and "p \<in> set players"
    and "\<forall>q\<in>set players. 0 \<le> f q"
  shows "fdiv (Fin (f p)) (col_max (map f players)) = NaN"
proof -
  have "f p \<le> 0" using assms(1,2) by (rule col_max_upper)
  with assms have "f p = 0" by force
  with assms(1) show ?thesis by simp
qed

lemma zero_economy:
  assumes "economy p = 0" and "p \<in> set players" and "\<forall>q\<in>set players. 0 \<le> economy q"
  shows "fdiv (col_min (map economy players)) (Fin (economy p)) = NaN"
proof -
  have "col_min (map economy players) = Fin (economy p)"
    using assms by (intro col_min_eq) auto
  with assms(1) show ?thesis by simp
qed

text \<open>
  Claim C7. In a player table with positive column maxima and positive economies, a
  player holding the maximum runs and the maximum strike rate has \<open>bat_score = 1.0\<close>,
  and one who also holds the maximum wickets and the minimum economy has
  \<open>performance_index = 1.0\<close>.
\<close>

theorem top_player_scores_one:
  assumes "p \<in> set players"
    and "\<forall>q\<in>set players. runs q \<le> runs p" and "0 < runs p"
    and "\<forall>q\<in>set players. strike_rate q \<le> strike_rate p" and "0 < strike_rate p"
  shows "bat_score players p = Fin 1
       \<and> ((\<forall>q\<in>set players. wickets q \<le> wickets p) \<and> 0 < wickets p
            \<and> (\<forall>q\<in>set players. economy p \<le> economy q) \<and> 0 < economy p
          \<longrightarrow> performance_index players p = Fin 1)"
  using assms
  by (auto simp: bat_score_def bowl_score_def performance_index_def col_max_eq col_min_eq)

theorem top_player_scores_one_witness:
  "bat_score [allrounder_a, allrounder_b] allrounder_a = Fin 1
   \<and> performance_index [allrounder_a, allrounder_b] allrounder_a = Fin 1"
  using top_player_scores_one [of allrounder_a "[allrounder_a, allrounder_b]"]
  by (simp add: allrounder_a_def allrounder_b_def)

text \<open>
  Claim C2, as the specification states it: with a zero column maximum or a zero
  economy the scorer yields a defined fallback instead of NaN or an infinity. The code
  has no such guard. In a table of two bowlers who never batted, \<open>max_runs = 0\<close> and
  the batting score and the performance index of a player are NaN.
\<close>

theorem zero_max_runs_gives_nan:
  "col_max (map runs [bowler_c, bowler_d]) = Fin 0
   \<and> bat_score [bowler_c, bowler_d] bowler_c = NaN
   \<and> performance_index [bowler_c, bowler_d] bowler_c = NaN"
  by (simp add: bowler_c_def bowler_d_def bat_score_def bowl_score_def performance_index_def)

text \<open>
  Claim C2, amended. In a player table of non-negative entries the scorer substitutes
  no fallback value: when \<open>max_runs = 0\<close> or \<open>max_strike_rate = 0\<close> every player's
  \<open>bat_score\<close> is NaN (the quotient \<open>0 / 0\<close>), when \<open>max_wickets = 0\<close> or the player's
  own economy is 0 the player's \<open>bowl_score\<close> is NaN, and in each case the NaN
  propagates into \<open>performance_index\<close>.
\<close>

theorem degenerate_scores_are_nan:
  assumes "p \<in> set players"
    and "\<forall>q\<in>set players. 0 \<le> runs q" and "\<forall>q\<in>set players. 0 \<le> strike_rate q"
    and "\<forall>q\<in>set players. 0 \<le> wickets q" and "\<forall>q\<in>set players. 0 \<le> economy q"
  shows "(col_max (map runs players) = Fin 0 \<or> col_max (map strike_rate players) = Fin 0
            \<longrightarrow> bat_score players p = NaN \<and> performance_index players p = NaN)
       \<and> (col_max (map wickets players) = Fin 0 \<or> economy p = 0
            \<longrightarrow> bowl_score players p = NaN \<and> performance_index players p = NaN)"
proof -
  have b1: "bat_score players p = NaN" if "col_max (map runs players) = Fin 0"
    using zero_max_column [OF that assms(1,2)] by (simp add: bat_score_def)
  have b2: "bat_score players p = NaN" if "col_max (map strike_rate players) = Fin 0"
    using zero_max_column [OF that assms(1,3)] by (simp add: bat_score_def)
  have w1: "bowl_score players p = NaN" if "col_max (map wickets players) = Fin 0"
    using zero_max_column [OF that assms(1,4)] by (simp add: bowl_score_def)
  have w2: "bowl_score players p = NaN" if "economy p = 0"
    using zero_economy [OF that assms(1,5)] by (simp add: bowl_score_def)
  show ?thesis
    using b1 b2 w1 w2 by (auto simp: performance_index_def)
qed

theorem degenerate_scores_are_nan_witness:
  "col_max (map strike_rate [bowler_c, bowler_d]) = Fin 0
   \<and> bat_score [bowler_c, bowler_d] bowler_d = NaN
   \<and> performance_index [bowler_c, bowler_d] bowler_d = NaN"
  using degenerate_scores_are_nan [of bowler_d "[bowler_c, bowler_d]"]
  by (simp add: bowler_c_def bowler_d_def)

end
